theory Spec2Isabelle
  imports Complex_Main
begin

section \<open>JavaScript numbers\<close>

text \<open>
  The composable \<^verbatim>\<open>useNdvLayout\<close> computes with JavaScript numbers. A number is
  modelled as a finite value, one of the two infinities, or NaN. A finite value is a
  real number between \<^verbatim>\<open>-Number.MAX_VALUE\<close> and \<^verbatim>\<open>Number.MAX_VALUE\<close>. The non-finite
  values follow IEEE 754, as JavaScript does, and so does overflow: a finite operation
  whose exact result reaches the overflow bound returns an infinity, and an exact result
  between the largest double and that bound returns the largest double. Inside the range
  a finite result is the exact real number: the rounding of a double, underflow and the
  sign of zero are outside the model (every divisor the code can reach is a positive
  constant, a container width that passed the guard, or a sum of values that
  \<^verbatim>\<open>Math.max\<close> made non-negative, so a negative zero never decides a result).
  Equality "within floating-point tolerance" is therefore equality.
\<close>

text \<open>\<^verbatim>\<open>Number.MAX_VALUE\<close>, and the bound from which round-to-nearest returns an
  infinity: half a unit in the last place above it.\<close>

definition maxValue :: real where
  "maxValue = 2 ^ 1024 - 2 ^ 971"

definition overflowBound :: real where
  "overflowBound = 2 ^ 1024 - 2 ^ 970"

typedef finiteDouble = "{r :: real. - maxValue \<le> r \<and> r \<le> maxValue}"
  by (rule exI [of _ 0]) (simp add: maxValue_def)

datatype number = Finite finiteDouble | PInf | NInf | NaN

text \<open>The range of the finite doubles, and the value that an exact result beyond the
  largest double but below the overflow bound is rounded to.\<close>

definition inRange :: "real \<Rightarrow> bool" where
  "inRange r = (- maxValue \<le> r \<and> r \<le> maxValue)"

definition clamp :: "real \<Rightarrow> real" where
  "clamp r = max (- maxValue) (min maxValue r)"

text \<open>The number that a finite operation with exact result \<open>r\<close> returns; also the way a
  literal is written.\<close>

definition Fin :: "real \<Rightarrow> number" where
  "Fin r =
     (if overflowBound \<le> r then PInf
      else if r \<le> - overflowBound then NInf
      else Finite (Abs_finiteDouble (clamp r)))"

instantiation number :: "{uminus, plus, minus, times, inverse, ord}"
begin

fun uminus_number :: "number \<Rightarrow> number" where
  "uminus_number (Finite a) = Fin (- Rep_finiteDouble a)"
| "uminus_number PInf = NInf"
| "uminus_number NInf = PInf"
| "uminus_number NaN = NaN"

fun plus_number :: "number \<Rightarrow> number \<Rightarrow> number" where
  "plus_number NaN y = NaN"
| "plus_number x NaN = NaN"
| "plus_number (Finite a) (Finite b) = Fin (Rep_finiteDouble a + Rep_finiteDouble b)"
| "plus_number (Finite a) PInf = PInf"
| "plus_number (Finite a) NInf = NInf"
| "plus_number PInf (Finite b) = PInf"
| "plus_number PInf PInf = PInf"
| "plus_number PInf NInf = NaN"
| "plus_number NInf (Finite b) = NInf"
| "plus_number NInf NInf = NInf"
| "plus_number NInf PInf = NaN"

definition minus_number :: "number \<Rightarrow> number \<Rightarrow> number" where
  "minus_number x y = x + (- y)"

fun times_number :: "number \<Rightarrow> number \<Rightarrow> number" where
  "times_number NaN y = NaN"
| "times_number x NaN = NaN"
| "times_number (Finite a) (Finite b) = Fin (Rep_finiteDouble a * Rep_finiteDouble b)"
| "times_number (Finite a) PInf =
     (if Rep_finiteDouble a = 0 then NaN else if 0 < Rep_finiteDouble a then PInf else NInf)"
| "times_number (Finite a) NInf =
     (if Rep_finiteDouble a = 0 then NaN else if 0 < Rep_finiteDouble a then NInf else PInf)"
| "times_number PInf (Finite b) =
     (if Rep_finiteDouble b = 0 then NaN else if 0 < Rep_finiteDouble b then PInf else NInf)"
| "times_number NInf (Finite b) =
     (if Rep_finiteDouble b = 0 then NaN else if 0 < Rep_finiteDouble b then NInf else PInf)"
| "times_number PInf PInf = PInf"
| "times_number PInf NInf = NInf"
| "times_number NInf PInf = NInf"
| "times_number NInf NInf = PInf"

fun divide_number :: "number \<Rightarrow> number \<Rightarrow> number" where
  "divide_number NaN y = NaN"
| "divide_number x NaN = NaN"
| "divide_number (Finite a) (Finite b) =
     (if Rep_finiteDouble b = 0
      then (if Rep_finiteDouble a = 0 then NaN
            else if 0 < Rep_finiteDouble a then PInf else NInf)
      else Fin (Rep_finiteDouble a / Rep_finiteDouble b))"
| "divide_number (Finite a) PInf = Fin 0"
| "divide_number (Finite a) NInf = Fin 0"
| "divide_number PInf (Finite b) = (if Rep_finiteDouble b < 0 then NInf else PInf)"
| "divide_number NInf (Finite b) = (if Rep_finiteDouble b < 0 then PInf else NInf)"
| "divide_number PInf PInf = NaN"
| "divide_number PInf NInf = NaN"
| "divide_number NInf PInf = NaN"
| "divide_number NInf NInf = NaN"

definition inverse_number :: "number \<Rightarrow> number" where
  "inverse_number x = divide (Fin 1) x"

text \<open>The comparisons \<^verbatim>\<open><\<close> and \<^verbatim>\<open><=\<close>: false as soon as one side is NaN.
  The source's \<^verbatim>\<open>a > b\<close> is written \<open>b < a\<close> and \<^verbatim>\<open>a >= b\<close> is \<open>b \<le> a\<close>.\<close>

fun less_number :: "number \<Rightarrow> number \<Rightarrow> bool" where
  "less_number NaN y = False"
| "less_number x NaN = False"
| "less_number (Finite a) (Finite b) = (Rep_finiteDouble a < Rep_finiteDouble b)"
| "less_number (Finite a) PInf = True"
| "less_number (Finite a) NInf = False"
| "less_number PInf y = False"
| "less_number NInf (Finite b) = True"
| "less_number NInf PInf = True"
| "less_number NInf NInf = False"

fun less_eq_number :: "number \<Rightarrow> number \<Rightarrow> bool" where
  "less_eq_number NaN y = False"
| "less_eq_number x NaN = False"
| "less_eq_number (Finite a) (Finite b) = (Rep_finiteDouble a \<le> Rep_finiteDouble b)"
| "less_eq_number (Finite a) PInf = True"
| "less_eq_number (Finite a) NInf = False"
| "less_eq_number PInf (Finite b) = False"
| "less_eq_number PInf PInf = True"
| "less_eq_number PInf NInf = False"
| "less_eq_number NInf y = True"

instance ..

end

text \<open>\<^verbatim>\<open>Math.max(a, b)\<close>: NaN as soon as one argument is NaN.\<close>

fun Math_max :: "number \<Rightarrow> number \<Rightarrow> number" where
  "Math_max NaN y = NaN"
| "Math_max x NaN = NaN"
| "Math_max x y = (if x < y then y else x)"

text \<open>\<^verbatim>\<open>Number.isFinite(value)\<close> on a number.\<close>

fun Number_isFinite :: "number \<Rightarrow> bool" where
  "Number_isFinite (Finite a) = True"
| "Number_isFinite x = False"

text \<open>Truthiness of a number: \<^verbatim>\<open>!value\<close> holds for zero and for NaN.\<close>

fun falsy :: "number \<Rightarrow> bool" where
  "falsy (Finite a) = (Rep_finiteDouble a = 0)"
| "falsy NaN = True"
| "falsy x = False"

section \<open>The inputs of the composable\<close>

text \<open>The tags of \<^verbatim>\<open>MainPanelType\<close>, as the switch in \<^verbatim>\<open>defaultPanelSize\<close>
  names them.\<close>

datatype MainPanelType = Regular | Dragless | Inputless | Unknown | Wide

text \<open>The reactive inputs: the observed width of the container element
  (\<^verbatim>\<open>useElementSize(options.container).width\<close>) and the two options.\<close>

record inputs =
  containerWidth :: number
  hasInputPanel :: bool
  paneType :: MainPanelType

record NdvPanelsSize =
  left :: number
  main :: number
  right :: number

definition MIN_MAIN_PANEL_WIDTH_PX :: number where
  "MIN_MAIN_PANEL_WIDTH_PX = Fin 368"

definition MIN_PANEL_WIDTH_PX :: number where
  "MIN_PANEL_WIDTH_PX = Fin 120"

definition DEFAULT_INPUTLESS_MAIN_WIDTH_PX :: number where
  "DEFAULT_INPUTLESS_MAIN_WIDTH_PX = Fin 480"

definition DEFAULT_WIDE_MAIN_WIDTH_PX :: number where
  "DEFAULT_WIDE_MAIN_WIDTH_PX = Fin 640"

definition DEFAULT_REGULAR_MAIN_WIDTH_PX :: number where
  "DEFAULT_REGULAR_MAIN_WIDTH_PX = Fin 420"

section \<open>Unit conversion\<close>

text \<open>The guard \<^verbatim>\<open>!containerWidth.value || containerWidth.value <= 0\<close>.\<close>

definition widthUnavailable :: "inputs \<Rightarrow> bool" where
  "widthUnavailable i = (falsy (containerWidth i) \<or> containerWidth i \<le> Fin 0)"

definition percentageToPixels :: "inputs \<Rightarrow> number \<Rightarrow> number" where
  "percentageToPixels i percentage =
     (if widthUnavailable i then Fin 0
      else (percentage / Fin 100) * containerWidth i)"

definition pixelsToPercentage :: "inputs \<Rightarrow> number \<Rightarrow> number" where
  "pixelsToPercentage i pixels =
     (if widthUnavailable i then Fin 0
      else (pixels / containerWidth i) * Fin 100)"

definition minMainPanelWidthPercentage :: "inputs \<Rightarrow> number" where
  "minMainPanelWidthPercentage i = pixelsToPercentage i MIN_MAIN_PANEL_WIDTH_PX"

definition minPanelWidthPercentage :: "inputs \<Rightarrow> number" where
  "minPanelWidthPercentage i = pixelsToPercentage i MIN_PANEL_WIDTH_PX"

definition panelWidthPixels :: "inputs \<Rightarrow> NdvPanelsSize \<Rightarrow> NdvPanelsSize" where
  "panelWidthPixels i p =
     \<lparr> left = percentageToPixels i (left p),
       main = percentageToPixels i (main p),
       right = percentageToPixels i (right p) \<rparr>"

section \<open>Default allocation\<close>

definition defaultPanelSize :: "inputs \<Rightarrow> NdvPanelsSize" where
  "defaultPanelSize i =
     (if widthUnavailable i then
        (case paneType i of
           Inputless \<Rightarrow> \<lparr> left = Fin 0, main = Fin 40, right = Fin 60 \<rparr>
         | Wide \<Rightarrow> \<lparr> left = Fin 23.5, main = Fin 53, right = Fin 23.5 \<rparr>
         | _ \<Rightarrow> \<lparr> left = Fin 32.5, main = Fin 35, right = Fin 32.5 \<rparr>)
      else
        (case paneType i of
           Inputless \<Rightarrow>
             (let m = pixelsToPercentage i DEFAULT_INPUTLESS_MAIN_WIDTH_PX
              in \<lparr> left = Fin 0, main = m, right = Fin 100 - m \<rparr>)
         | Wide \<Rightarrow>
             (let m = pixelsToPercentage i DEFAULT_WIDE_MAIN_WIDTH_PX;
                  panels = (Fin 100 - m) / Fin 2
              in \<lparr> left = panels, main = m, right = panels \<rparr>)
         | _ \<Rightarrow>
             (let m = pixelsToPercentage i DEFAULT_REGULAR_MAIN_WIDTH_PX;
                  panels = (Fin 100 - m) / Fin 2
              in \<lparr> left = panels, main = m, right = panels \<rparr>)))"

section \<open>The normalizer\<close>

definition sanitizeValue :: "number \<Rightarrow> number" where
  "sanitizeValue v = (if \<not> Number_isFinite v \<or> v < Fin 0 then Fin 0 else v)"

definition minLeft :: "inputs \<Rightarrow> number" where
  "minLeft i = (if hasInputPanel i then minPanelWidthPercentage i else Fin 0)"

definition minRight :: "inputs \<Rightarrow> number" where
  "minRight i = minPanelWidthPercentage i"

definition minMain :: "inputs \<Rightarrow> number" where
  "minMain i = minMainPanelWidthPercentage i"

text \<open>The object \<^verbatim>\<open>newPanelWidth\<close> before the overflow branch: every field
  sanitized, then raised to its minimum.\<close>

definition clamped :: "inputs \<Rightarrow> NdvPanelsSize \<Rightarrow> NdvPanelsSize" where
  "clamped i p =
     \<lparr> left = Math_max (minLeft i) (sanitizeValue (left p)),
       main = Math_max (minMain i) (sanitizeValue (main p)),
       right = Math_max (minRight i) (sanitizeValue (right p)) \<rparr>"

definition totalOf :: "NdvPanelsSize \<Rightarrow> number" where
  "totalOf p = left p + main p + right p"

definition safePanelWidth :: "inputs \<Rightarrow> NdvPanelsSize \<Rightarrow> NdvPanelsSize" where
  "safePanelWidth i p =
     (let newPanelWidth = clamped i p
      in if Fin 100 < totalOf newPanelWidth then
           (let overflow = totalOf newPanelWidth - Fin 100;
                trimLeft =
                  (left newPanelWidth / (left newPanelWidth + right newPanelWidth)) * overflow;
                trimRight = overflow - trimLeft
            in newPanelWidth
                 \<lparr> left := Math_max (minLeft i) (left newPanelWidth - trimLeft),
                   right := Math_max (minRight i) (right newPanelWidth - trimRight) \<rparr>)
         else newPanelWidth)"

section \<open>Persistence\<close>

text \<open>The values \<^verbatim>\<open>JSON.parse\<close> can return. An object is an association list, read
  by its first entry for a key.\<close>

datatype json =
    JNull
  | JBool bool
  | JNum number
  | JStr string
  | JArr "json list"
  | JObj "(string \<times> json) list"

text \<open>\<^verbatim>\<open>value.key\<close>: \<open>None\<close> is \<^verbatim>\<open>undefined\<close>. Only an object can carry one of the
  keys \<^verbatim>\<open>left\<close>, \<^verbatim>\<open>main\<close>, \<^verbatim>\<open>right\<close>.\<close>

fun property :: "json \<Rightarrow> string \<Rightarrow> json option" where
  "property (JObj kvs) k = map_of kvs k"
| "property j k = None"

fun truthy :: "json \<Rightarrow> bool" where
  "truthy JNull = False"
| "truthy (JBool b) = b"
| "truthy (JNum n) = (\<not> falsy n)"
| "truthy (JStr s) = (s \<noteq> [])"
| "truthy (JArr xs) = True"
| "truthy (JObj kvs) = True"

text \<open>What the composable takes from outside this file: the storage key prefix of
  \<^verbatim>\<open>ndv.constants\<close> and the two functions of the built-in \<^verbatim>\<open>JSON\<close> object
  (\<open>JSON_parse\<close> returns \<open>None\<close> where \<^verbatim>\<open>JSON.parse\<close> throws).\<close>

record externals =
  LOCAL_STORAGE_NDV_PANEL_WIDTH :: string
  JSON_parse :: "string \<Rightarrow> json option"
  JSON_stringify :: "json \<Rightarrow> string"

text \<open>Modelled from the spec: \<^verbatim>\<open>jsonParse\<close> of the package \<^verbatim>\<open>n8n-workflow\<close>, which
  is not among the sources. With the option \<^verbatim>\<open>fallbackValue\<close> it returns the parsed
  value, and the fallback when parsing fails.\<close>

definition jsonParse :: "externals \<Rightarrow> string \<Rightarrow> json \<Rightarrow> json" where
  "jsonParse x jsonString fallbackValue =
     (case JSON_parse x jsonString of Some j \<Rightarrow> j | None \<Rightarrow> fallbackValue)"

text \<open>The state: the reactive allocation and the browser's \<^verbatim>\<open>localStorage\<close>.\<close>

record state =
  panelWidthPercentage :: NdvPanelsSize
  localStorage :: "string \<rightharpoonup> string"

definition paneTypeTag :: "MainPanelType \<Rightarrow> string" where
  "paneTypeTag t =
     (case t of Regular \<Rightarrow> ''regular'' | Dragless \<Rightarrow> ''dragless''
      | Inputless \<Rightarrow> ''inputless'' | Unknown \<Rightarrow> ''unknown'' | Wide \<Rightarrow> ''wide'')"

definition upperChar :: "char \<Rightarrow> char" where
  "upperChar c =
     (let n = (of_char c :: nat) in if 97 \<le> n \<and> n \<le> 122 then char_of (n - 32) else c)"

definition toUpperCase :: "string \<Rightarrow> string" where
  "toUpperCase s = map upperChar s"

definition localStorageKey :: "externals \<Rightarrow> inputs \<Rightarrow> string" where
  "localStorageKey x i =
     LOCAL_STORAGE_NDV_PANEL_WIDTH x @ ''_'' @ toUpperCase (paneTypeTag (paneType i))"

text \<open>An allocation as a JavaScript object.\<close>

definition objectOf :: "NdvPanelsSize \<Rightarrow> json" where
  "objectOf p =
     JObj [(''left'', JNum (left p)), (''main'', JNum (main p)), (''right'', JNum (right p))]"

definition persistPanelSize :: "externals \<Rightarrow> inputs \<Rightarrow> state \<Rightarrow> state" where
  "persistPanelSize x i s =
     s \<lparr> localStorage :=
           (localStorage s)
             (localStorageKey x i \<mapsto> JSON_stringify x (objectOf (panelWidthPercentage s))) \<rparr>"

text \<open>\<^verbatim>\<open>Number.isFinite(storedPanelSize.key)\<close>: false for a missing field and for every
  value that is not a number.\<close>

definition finiteField :: "json \<Rightarrow> string \<Rightarrow> bool" where
  "finiteField j k = (case property j k of Some (JNum n) \<Rightarrow> Number_isFinite n | _ \<Rightarrow> False)"

text \<open>The number in a field. The source reads it only behind the three
  \<^verbatim>\<open>Number.isFinite\<close> tests, where the field is a number.\<close>

definition numberField :: "json \<Rightarrow> string \<Rightarrow> number" where
  "numberField j k = (case property j k of Some (JNum n) \<Rightarrow> n | _ \<Rightarrow> NaN)"

definition isValid :: "json \<Rightarrow> bool" where
  "isValid storedPanelSize =
     (finiteField storedPanelSize ''left'' \<and>
      finiteField storedPanelSize ''main'' \<and>
      finiteField storedPanelSize ''right'' \<and>
      Fin 0 \<le> numberField storedPanelSize ''left'' \<and>
      Fin 0 \<le> numberField storedPanelSize ''main'' \<and>
      Fin 0 \<le> numberField storedPanelSize ''right'' \<and>
      numberField storedPanelSize ''left'' + numberField storedPanelSize ''main''
        + numberField storedPanelSize ''right'' \<le> Fin 200)"

definition panelsOf :: "json \<Rightarrow> NdvPanelsSize" where
  "panelsOf j =
     \<lparr> left = numberField j ''left'', main = numberField j ''main'',
       right = numberField j ''right'' \<rparr>"

definition loadPanelSize :: "externals \<Rightarrow> inputs \<Rightarrow> state \<Rightarrow> state" where
  "loadPanelSize x i s =
     (let defaultSize = defaultPanelSize i
      in case localStorage s (localStorageKey x i) of
           None \<Rightarrow> s \<lparr> panelWidthPercentage := safePanelWidth i defaultSize \<rparr>
         | Some storedPanelSizeString \<Rightarrow>
             if storedPanelSizeString = [] then
               s \<lparr> panelWidthPercentage := safePanelWidth i defaultSize \<rparr>
             else
               (let storedPanelSize =
                      jsonParse x storedPanelSizeString (objectOf defaultSize)
                in if truthy storedPanelSize \<and> isValid storedPanelSize then
                     s \<lparr> panelWidthPercentage := safePanelWidth i (panelsOf storedPanelSize) \<rparr>
                   else
                     s \<lparr> localStorage := (localStorage s) (localStorageKey x i := None),
                         panelWidthPercentage := safePanelWidth i defaultSize \<rparr>))"

definition onResizeEnd :: "externals \<Rightarrow> inputs \<Rightarrow> state \<Rightarrow> state" where
  "onResizeEnd x i s = persistPanelSize x i s"

section \<open>The two gestures\<close>

text \<open>The two fields of \<^verbatim>\<open>ResizeData\<close> that \<^verbatim>\<open>onResize\<close> reads.\<close>

record ResizeData =
  width :: number
  direction :: string

definition onResize :: "inputs \<Rightarrow> ResizeData \<Rightarrow> state \<Rightarrow> state" where
  "onResize i event s =
     (let newMain = Math_max (minMainPanelWidthPercentage i) (pixelsToPercentage i (width event));
          initialLeft = left (panelWidthPercentage s);
          initialMain = main (panelWidthPercentage s);
          initialRight = right (panelWidthPercentage s);
          diffMain = newMain - initialMain
      in if direction event = ''left'' then
           (let potentialLeft = initialLeft - diffMain
            in if potentialLeft < minPanelWidthPercentage i then s
               else
                 (let newLeft = Math_max (minPanelWidthPercentage i) potentialLeft;
                      newRight = initialRight
                  in s \<lparr> panelWidthPercentage :=
                           safePanelWidth i \<lparr> left = newLeft, main = newMain, right = newRight \<rparr> \<rparr>))
         else if direction event = ''right'' then
           (let potentialRight = initialRight - diffMain
            in if potentialRight < minPanelWidthPercentage i then s
               else
                 (let newRight = Math_max (minPanelWidthPercentage i) potentialRight;
                      newLeft = initialLeft
                  in s \<lparr> panelWidthPercentage :=
                           safePanelWidth i \<lparr> left = newLeft, main = newMain, right = newRight \<rparr> \<rparr>))
         else s)"

text \<open>\<^verbatim>\<open>XYPosition\<close> is a pair; \<^verbatim>\<open>position[0]\<close> is its first component.\<close>

definition onDrag :: "inputs \<Rightarrow> number \<times> number \<Rightarrow> state \<Rightarrow> state" where
  "onDrag i position s =
     (let newLeft =
            Math_max (minPanelWidthPercentage i)
              (pixelsToPercentage i (fst position) - main (panelWidthPercentage s) / Fin 2);
          newRight =
            Math_max (minPanelWidthPercentage i)
              (Fin 100 - newLeft - main (panelWidthPercentage s))
      in if Fin 100 < newLeft + main (panelWidthPercentage s) + newRight then s
         else
           (let sanitized =
                  safePanelWidth i
                    \<lparr> left = newLeft, main = main (panelWidthPercentage s), right = newRight \<rparr>
            in s \<lparr> panelWidthPercentage :=
                     (panelWidthPercentage s) \<lparr> left := left sanitized, right := right sanitized \<rparr> \<rparr>))"

section \<open>The two watchers\<close>

text \<open>The reaction to a change of the container width, from \<open>oldWidth\<close> to the width in
  the inputs: nothing while the new width is falsy, a load on the first available width,
  a re-normalization afterwards. A change of the pane type always loads.\<close>

definition onContainerWidthChange :: "externals \<Rightarrow> inputs \<Rightarrow> number \<Rightarrow> state \<Rightarrow> state" where
  "onContainerWidthChange x i oldWidth s =
     (if falsy (containerWidth i) then s
      else if falsy oldWidth then loadPanelSize x i s
      else s \<lparr> panelWidthPercentage := safePanelWidth i (panelWidthPercentage s) \<rparr>)"

definition onPaneTypeChange :: "externals \<Rightarrow> inputs \<Rightarrow> state \<Rightarrow> state" where
  "onPaneTypeChange x i s = loadPanelSize x i s"

section \<open>Statements of the specification and concrete inputs\<close>

text \<open>"A positive finite number", as the specification says of the container width.\<close>

definition positiveFinite :: "number \<Rightarrow> bool" where
  "positiveFinite w = (Number_isFinite w \<and> Fin 0 < w)"


text \<open>The two outer values after the proportional trim and before they are clamped to
  their minimums again: \<^verbatim>\<open>newPanelWidth.left - trimLeft\<close> and
  \<^verbatim>\<open>newPanelWidth.right - trimRight\<close>.\<close>

definition trimmedLeft :: "inputs \<Rightarrow> NdvPanelsSize \<Rightarrow> number" where
  "trimmedLeft i p =
     (let newPanelWidth = clamped i p;
          overflow = totalOf newPanelWidth - Fin 100;
          trimLeft = (left newPanelWidth / (left newPanelWidth + right newPanelWidth)) * overflow
      in left newPanelWidth - trimLeft)"

definition trimmedRight :: "inputs \<Rightarrow> NdvPanelsSize \<Rightarrow> number" where
  "trimmedRight i p =
     (let newPanelWidth = clamped i p;
          overflow = totalOf newPanelWidth - Fin 100;
          trimLeft = (left newPanelWidth / (left newPanelWidth + right newPanelWidth)) * overflow;
          trimRight = overflow - trimLeft
      in right newPanelWidth - trimRight)"

text \<open>The edge resize to the left as the specification words it, with the floor of the
  left panel as a parameter: reject when the would-be left value is below the floor,
  otherwise commit the normalized candidate.\<close>

definition onResizeLeftClaim :: "number \<Rightarrow> inputs \<Rightarrow> ResizeData \<Rightarrow> state \<Rightarrow> state" where
  "onResizeLeftClaim minLeftPercentage i event s =
     (let newMain = Math_max (minMainPanelWidthPercentage i) (pixelsToPercentage i (width event));
          potentialLeft =
            left (panelWidthPercentage s) - (newMain - main (panelWidthPercentage s))
      in if potentialLeft < minLeftPercentage then s
         else s \<lparr> panelWidthPercentage :=
                  safePanelWidth i
                    \<lparr> left = Math_max minLeftPercentage potentialLeft, main = newMain,
                      right = right (panelWidthPercentage s) \<rparr> \<rparr>)"

text \<open>The two candidate values of a drag as the specification words them, with the floor
  of the left panel as a parameter.\<close>

definition dragLeft :: "number \<Rightarrow> inputs \<Rightarrow> number \<times> number \<Rightarrow> state \<Rightarrow> number" where
  "dragLeft minLeftPercentage i position s =
     Math_max minLeftPercentage
       (pixelsToPercentage i (fst position) - main (panelWidthPercentage s) / Fin 2)"

definition dragRight :: "number \<Rightarrow> inputs \<Rightarrow> number \<times> number \<Rightarrow> state \<Rightarrow> number" where
  "dragRight minLeftPercentage i position s =
     Math_max (minRight i)
       (Fin 100 - dragLeft minLeftPercentage i position s - main (panelWidthPercentage s))"

text \<open>A parsed value that is structurally invalid, in the specification's words: a field
  that is not a finite number, a negative field, or a sum above 200.\<close>

definition structurallyInvalid :: "json \<Rightarrow> bool" where
  "structurallyInvalid j =
     (\<not> finiteField j ''left'' \<or> \<not> finiteField j ''main'' \<or> \<not> finiteField j ''right''
      \<or> numberField j ''left'' < Fin 0 \<or> numberField j ''main'' < Fin 0
      \<or> numberField j ''right'' < Fin 0
      \<or> Fin 200 < numberField j ''left'' + numberField j ''main'' + numberField j ''right'')"

text \<open>A container of 1000 pixels with an input panel, as in the test suite: the minimums
  are 12, 36.8 and 12. The other inputs vary the width or drop the input panel.\<close>

definition i1000 :: inputs where
  "i1000 = \<lparr> containerWidth = Fin 1000, hasInputPanel = True, paneType = Regular \<rparr>"


definition i300 :: inputs where
  "i300 = \<lparr> containerWidth = Fin 300, hasInputPanel = True, paneType = Regular \<rparr>"

definition iZero :: inputs where
  "iZero = \<lparr> containerWidth = Fin 0, hasInputPanel = True, paneType = Regular \<rparr>"

definition iNoInput :: inputs where
  "iNoInput = \<lparr> containerWidth = Fin 1000, hasInputPanel = False, paneType = Inputless \<rparr>"

definition percentages :: "real \<Rightarrow> real \<Rightarrow> real \<Rightarrow> NdvPanelsSize" where
  "percentages l m r = \<lparr> left = Fin l, main = Fin m, right = Fin r \<rparr>"

definition stateOf :: "NdvPanelsSize \<Rightarrow> state" where
  "stateOf p = \<lparr> panelWidthPercentage = p, localStorage = Map.empty \<rparr>"

definition resizeLeft500 :: ResizeData where
  "resizeLeft500 = \<lparr> width = Fin 500, direction = ''left'' \<rparr>"

definition resizeLeft520 :: ResizeData where
  "resizeLeft520 = \<lparr> width = Fin 520, direction = ''left'' \<rparr>"

text \<open>A table standing for \<^verbatim>\<open>JSON.parse\<close> and \<^verbatim>\<open>JSON.stringify\<close> on the texts the
  examples store; every other text is unparseable.\<close>

definition storedTexts :: "(string \<times> json) list" where
  \<open>storedTexts =
     [(''{"left":30,"main":40,"right":30}'', objectOf (percentages 30 40 30)),
      (''{"left":-10,"main":40,"right":30}'', objectOf (percentages (- 10) 40 30)),
      (''{"left":24,"main":180,"right":24}'', objectOf (percentages 24 180 24)),
      (''{"left":null,"main":40,"right":30}'',
         JObj [(''left'', JNull), (''main'', JNum (Fin 40)), (''right'', JNum (Fin 30))]),
      (''null'', JNull)]\<close>

definition testJSON :: externals where
  "testJSON =
     \<lparr> LOCAL_STORAGE_NDV_PANEL_WIDTH = ''N8N_NDV_PANEL_WIDTH'',
       JSON_parse = map_of storedTexts,
       JSON_stringify = (\<lambda>j. case map_of (map (\<lambda>(t, v). (v, t)) storedTexts) j of
                                 Some t \<Rightarrow> t | None \<Rightarrow> ''null'') \<rparr>"

text \<open>The initial allocation with one text stored under the key of the regular variant.\<close>

definition storing :: "string \<Rightarrow> state" where
  "storing stored =
     \<lparr> panelWidthPercentage = percentages 40 20 40,
       localStorage = [''N8N_NDV_PANEL_WIDTH_REGULAR'' \<mapsto> stored] \<rparr>"

section \<open>Facts about numbers\<close>

lemma maxValue_large: "1000000000 < maxValue"
  by (simp add: maxValue_def)

lemma maxValue_gap: "maxValue + 1000000000 < overflowBound"
  by (simp add: maxValue_def overflowBound_def)

lemma maxValue_overflowBound: "maxValue < overflowBound"
  using maxValue_gap by simp

lemma inRange_small [simp]: "- 1000000000 \<le> r \<Longrightarrow> r \<le> 1000000000 \<Longrightarrow> inRange r"
  using maxValue_large by (simp add: inRange_def)

lemma inRange_uminus [simp]: "inRange (- r) = inRange r"
  by (auto simp: inRange_def)

lemma inRange_100_minus [simp]: "inRange a \<Longrightarrow> 0 \<le> a \<Longrightarrow> inRange (100 - a)"
  using maxValue_large by (simp add: inRange_def)

lemma inRange_max [simp]: "inRange a \<Longrightarrow> inRange b \<Longrightarrow> inRange (max a b)"
  by (simp add: max_def)

lemma inRange_Rep [simp]: "inRange (Rep_finiteDouble a)"
  using Rep_finiteDouble [of a] by (simp add: inRange_def)

lemma Rep_Abs: "inRange r \<Longrightarrow> Rep_finiteDouble (Abs_finiteDouble r) = r"
  by (simp add: Abs_finiteDouble_inverse inRange_def)

lemma Fin_Finite: "inRange r \<Longrightarrow> Fin r = Finite (Abs_finiteDouble r)"
  using maxValue_overflowBound by (simp add: Fin_def clamp_def inRange_def)

lemma Finite_Fin: "Finite a = Fin (Rep_finiteDouble a)"
  by (simp add: Fin_Finite Rep_finiteDouble_inverse)

lemma number_cases [case_names Fin PInf NInf NaN]:
  obtains r where "x = Fin r" "inRange r" | "x = PInf" | "x = NInf" | "x = NaN"
  by (cases x) (auto simp: Finite_Fin)

lemma Fin_simps:
  assumes "inRange a" "inRange b"
  shows "Fin a + Fin b = Fin (a + b)"
    and "Fin a - Fin b = Fin (a - b)"
    and "Fin a * Fin b = Fin (a * b)"
    and "b \<noteq> 0 \<Longrightarrow> Fin a / Fin b = Fin (a / b)"
    and "Fin a < Fin b \<longleftrightarrow> a < b"
    and "Fin a \<le> Fin b \<longleftrightarrow> a \<le> b"
    and "Fin a = Fin b \<longleftrightarrow> a = b"
    and "Math_max (Fin a) (Fin b) = Fin (max a b)"
  using assms
  by (simp_all add: Fin_Finite Rep_Abs minus_number_def max_def Abs_finiteDouble_inject inRange_def)

lemma Fin_infinite:
  assumes "inRange a"
  shows "- Fin a = Fin (- a)" "Fin a \<noteq> PInf" "Fin a \<noteq> NInf" "Fin a \<noteq> NaN" "PInf \<noteq> Fin a" "NInf \<noteq> Fin a" "NaN \<noteq> Fin a"
    and "Number_isFinite (Fin a)" "falsy (Fin a) \<longleftrightarrow> a = 0"
    and "Fin a < PInf" "Fin a \<le> PInf" "NInf < Fin a" "NInf \<le> Fin a"
    and "\<not> PInf < Fin a" "\<not> PInf \<le> Fin a" "\<not> Fin a < NInf" "\<not> Fin a \<le> NInf"
    and "Fin a + PInf = PInf" "PInf + Fin a = PInf" "Fin a + NInf = NInf" "NInf + Fin a = NInf"
    and "Fin a - PInf = NInf" "PInf - Fin a = PInf" "Fin a - NInf = PInf" "NInf - Fin a = NInf"
    and "Fin a / PInf = Fin 0" "Fin a / NInf = Fin 0"
    and "Fin a * PInf = (if a = 0 then NaN else if 0 < a then PInf else NInf)"
    and "PInf * Fin a = (if a = 0 then NaN else if 0 < a then PInf else NInf)"
    and "Fin a / Fin 0 = (if a = 0 then NaN else if 0 < a then PInf else NInf)"
    and "PInf / Fin a = (if a < 0 then NInf else PInf)"
    and "NInf / Fin a = (if a < 0 then PInf else NInf)"
    and "Math_max (Fin a) PInf = PInf" "Math_max PInf (Fin a) = PInf"
    and "Math_max (Fin a) NInf = Fin a" "Math_max NInf (Fin a) = Fin a"
  using assms inRange_small[of 0]
  by (simp_all add: Fin_Finite Rep_Abs minus_number_def Rep_finiteDouble_inverse)

lemma zero_PInf [simp]: "Fin 0 \<le> PInf" "Fin 0 < PInf" "\<not> Fin 0 \<le> NInf" "Fin 0 \<le> Fin 0"
  by (simp_all add: Fin_infinite Fin_simps)

lemma NaN_right [simp]:
  "\<not> x \<le> NaN" "\<not> x < NaN" "x + NaN = NaN" "x * NaN = NaN" "x / NaN = NaN" "x - NaN = NaN"
  "Math_max x NaN = NaN"
  by (cases x; simp add: minus_number_def)+

lemma NaN_left [simp]: "NaN - x = NaN"
  by (simp add: minus_number_def)

text \<open>The overflow of an exact result.\<close>

lemma Fin_overflow:
  "overflowBound \<le> r \<Longrightarrow> Fin r = PInf"
  "r \<le> - overflowBound \<Longrightarrow> Fin r = NInf"
  using maxValue_large maxValue_overflowBound by (simp_all add: Fin_def)

lemma inRange_clamp [simp]: "inRange (clamp r)"
  using maxValue_large by (simp add: clamp_def inRange_def)

lemma clamp_inRange: "inRange r \<Longrightarrow> clamp r = r"
  by (simp add: clamp_def inRange_def)

lemma Fin_clamp: "- overflowBound < r \<Longrightarrow> r < overflowBound \<Longrightarrow> Fin r = Fin (clamp r)"
  using inRange_clamp[of r] by (simp add: Fin_Finite) (simp add: Fin_def clamp_def)

lemma Fin_nonneg: "0 \<le> r \<Longrightarrow> Fin 0 \<le> Fin r"
proof (cases "overflowBound \<le> r")
  case True
  then show ?thesis
    using inRange_small[of 0] by (simp add: Fin_overflow Fin_infinite)
next
  case False
  assume r: "0 \<le> r"
  with False have "Fin r = Fin (clamp r)"
    using maxValue_large maxValue_overflowBound by (intro Fin_clamp) linarith+
  moreover have "0 \<le> clamp r"
    using r maxValue_large by (simp add: clamp_def)
  ultimately show ?thesis
    using inRange_small[of 0] by (simp add: Fin_simps)
qed

lemma Fin_le_bound:
  assumes "0 \<le> u" "Fin u \<le> Fin B" "B < maxValue" "inRange B"
  shows "u \<le> B"
proof (cases "overflowBound \<le> u")
  case True
  with assms(2,4) show ?thesis by (simp add: Fin_overflow Fin_infinite)
next
  case False
  with assms(1) have c: "Fin u = Fin (clamp u)"
    using maxValue_large maxValue_overflowBound by (intro Fin_clamp) linarith+
  with assms(2,4) have "clamp u \<le> B" by (simp add: Fin_simps)
  with assms(1,3) show ?thesis by (simp add: clamp_def min_def max_def split: if_splits)
qed

lemma nonneg_cases:
  assumes "Fin 0 \<le> v"
  obtains r where "v = Fin r" "inRange r" "0 \<le> r" | "v = PInf"
  using assms inRange_small[of 0]
  by (cases v rule: number_cases) (auto simp: Fin_simps Fin_infinite)

lemmas number_eval = Fin_simps Fin_infinite inRange_small

lemma Fin_trichotomy:
  obtains "overflowBound \<le> r" "Fin r = PInf"
  | "r \<le> - overflowBound" "Fin r = NInf"
  | "- overflowBound < r" "r < overflowBound" "Fin r = Fin (clamp r)"
  using Fin_clamp[of r] Fin_overflow[of r] by fastforce

lemma Fin_less_iff:
  assumes "inRange c" "c < maxValue"
  shows "Fin c < Fin z \<longleftrightarrow> c < z"
proof (cases z rule: Fin_trichotomy)
  case 1
  then show ?thesis
    using assms maxValue_overflowBound by (simp add: Fin_infinite)
next
  case 2
  then show ?thesis
    using assms maxValue_overflowBound by (simp add: Fin_infinite inRange_def)
next
  case 3
  have "c < clamp z \<longleftrightarrow> c < z"
    using assms by (auto simp: clamp_def inRange_def min_def max_def)
  then show ?thesis
    using 3 assms by (simp add: Fin_simps)
qed

lemma Fin_not_NaN [simp]: "Fin r \<noteq> NaN" "NaN \<noteq> Fin r"
  by (simp_all add: Fin_def)

lemma not_le_number: "x \<noteq> NaN \<Longrightarrow> y \<noteq> NaN \<Longrightarrow> (\<not> x \<le> y) = (y < x)"
  by (cases x; cases y) auto

lemma finite_sum_not_NaN:
  assumes "inRange a" "inRange b" "inRange c"
  shows "Fin a + Fin b + Fin c \<noteq> NaN"
  using assms
  by (cases "a + b" rule: Fin_trichotomy) (simp_all add: Fin_simps Fin_infinite)

section \<open>Facts about the converter and the normalizer\<close>

lemma above_floor_nonneg: "Fin 0 \<le> f \<Longrightarrow> f \<le> x \<Longrightarrow> Fin 0 \<le> x"
  using inRange_small[of 0]
  by (cases f rule: number_cases; cases x rule: number_cases) (simp_all add: Fin_simps Fin_infinite)

lemma PInf_le [simp]: "PInf \<le> x \<longleftrightarrow> x = PInf"
  by (cases x) simp_all

lemma pixelsToPercentage_nonneg:
  assumes "0 \<le> a" "inRange a"
  shows "Fin 0 \<le> pixelsToPercentage i (Fin a)"
proof (cases "containerWidth i" rule: number_cases)
  case (Fin c)
  show ?thesis
  proof (cases "widthUnavailable i")
    case True
    then show ?thesis
      using inRange_small[of 0] by (simp add: pixelsToPercentage_def Fin_simps)
  next
    case False
    with Fin have c: "0 < c"
      using inRange_small[of 0] by (simp add: widthUnavailable_def Fin_simps Fin_infinite)
    have h: "inRange 100" by (simp add: inRange_small)
    have "Fin 0 \<le> Fin (a / c)"
      using assms c by (intro Fin_nonneg) simp
    then have "Fin 0 \<le> Fin (a / c) * Fin 100"
    proof (cases rule: nonneg_cases)
      case (1 r)
      then show ?thesis
        using h by (simp add: Fin_simps Fin_nonneg)
    next
      case 2
      then show ?thesis
        using h by (simp add: Fin_infinite)
    qed
    then show ?thesis
      using False Fin c assms by (simp add: pixelsToPercentage_def Fin_simps)
  qed
next
  case PInf
  then show ?thesis
    using assms inRange_small[of 0] inRange_small[of 100]
    by (simp add: pixelsToPercentage_def widthUnavailable_def Fin_infinite Fin_simps)
next
  case NInf
  then show ?thesis
    using inRange_small[of 0] by (simp add: pixelsToPercentage_def widthUnavailable_def Fin_simps Fin_infinite)
next
  case NaN
  then show ?thesis
    using inRange_small[of 0] by (simp add: pixelsToPercentage_def widthUnavailable_def Fin_simps)
qed


lemma minPanel_nonneg: "Fin 0 \<le> minPanelWidthPercentage i"
  using pixelsToPercentage_nonneg[of 120 i]
  by (simp add: minPanelWidthPercentage_def MIN_PANEL_WIDTH_PX_def inRange_small)

lemma mins_nonneg:
  "Fin 0 \<le> minLeft i" "Fin 0 \<le> minMain i" "Fin 0 \<le> minRight i"
  using pixelsToPercentage_nonneg[of 120 i] pixelsToPercentage_nonneg[of 368 i]
    inRange_small[of 0]
  by (auto simp: minLeft_def minMain_def minRight_def minPanelWidthPercentage_def
      minMainPanelWidthPercentage_def MIN_PANEL_WIDTH_PX_def MIN_MAIN_PANEL_WIDTH_PX_def
      inRange_small Fin_simps)


lemma safePanelWidth_trimmed:
  "safePanelWidth i p =
     (if Fin 100 < totalOf (clamped i p)
      then (clamped i p) \<lparr> left := Math_max (minLeft i) (trimmedLeft i p),
                              right := Math_max (minRight i) (trimmedRight i p) \<rparr>
      else clamped i p)"
  by (simp add: safePanelWidth_def trimmedLeft_def trimmedRight_def Let_def)


text \<open>A sum of three non-negative numbers that stays under a bound in the range of the
  doubles is a sum of finite values.\<close>

lemma bounded_total:
  assumes "Fin 0 \<le> left a" "Fin 0 \<le> main a" "Fin 0 \<le> right a"
    and "totalOf a \<le> Fin B" and "inRange B" "B < maxValue"
  obtains l m r where "a = \<lparr> left = Fin l, main = Fin m, right = Fin r \<rparr>"
    "0 \<le> l" "0 \<le> m" "0 \<le> r" "l + m + r \<le> B" "totalOf a = Fin (l + m + r)"
    "inRange l" "inRange m" "inRange r"
proof -
  have notP: "\<not> PInf \<le> Fin B"
    using assms(5) by (simp add: Fin_infinite)
  have plusP: "x + PInf = PInf" "PInf + x = PInf" if "Fin 0 \<le> x" for x
    using that by (cases rule: nonneg_cases; simp add: Fin_infinite)+
  have sumnn: "Fin 0 \<le> x + y" if "Fin 0 \<le> x" "Fin 0 \<le> y" for x y
    using that(1)
  proof (cases rule: nonneg_cases)
    case (1 r)
    note x = this
    from that(2) show ?thesis
    proof (cases rule: nonneg_cases)
      case (1 s)
      then show ?thesis using x by (simp add: Fin_simps Fin_nonneg)
    next
      case 2
      then show ?thesis using x by (simp add: Fin_infinite)
    qed
  next
    case 2
    then show ?thesis using plusP(2)[OF that(2)] by simp
  qed
  from assms(1) obtain l where l: "left a = Fin l" "inRange l" "0 \<le> l"
  proof (cases rule: nonneg_cases)
    case 2
    then have "totalOf a = PInf"
      using plusP assms(2,3) by (simp add: totalOf_def)
    with assms(4) notP show ?thesis by simp
  qed
  from assms(2) obtain m where m: "main a = Fin m" "inRange m" "0 \<le> m"
  proof (cases rule: nonneg_cases)
    case 2
    then have "totalOf a = PInf"
      using plusP assms(1,3) by (simp add: totalOf_def)
    with assms(4) notP show ?thesis by simp
  qed
  from assms(3) obtain r where r: "right a = Fin r" "inRange r" "0 \<le> r"
  proof (cases rule: nonneg_cases)
    case 2
    then have "totalOf a = PInf"
      using plusP(1)[OF sumnn[OF assms(1,2)]] by (simp add: totalOf_def)
    with assms(4) notP show ?thesis by simp
  qed
  have lm0: "left a + main a = Fin (l + m)"
    using l m by (simp add: Fin_simps)
  have "Fin 0 \<le> Fin (l + m)"
    using l m by (intro Fin_nonneg) simp
  then obtain s where s: "Fin (l + m) = Fin s" "inRange s" "0 \<le> s"
  proof (cases rule: nonneg_cases)
    case 2
    then have "totalOf a = PInf"
      using r by (simp add: totalOf_def lm0 Fin_infinite)
    with assms(4) notP show ?thesis by simp
  qed
  have ts: "totalOf a = Fin (s + r)"
    using s r by (simp add: totalOf_def lm0 Fin_simps)
  have sr: "s + r \<le> B"
  proof (rule Fin_le_bound)
    show "0 \<le> s + r" using s(3) r(3) by simp
    show "Fin (s + r) \<le> Fin B" using assms(4) unfolding ts .
  qed (rule assms(6), rule assms(5))
  have fin: "l + m < overflowBound"
  proof (rule ccontr)
    assume "\<not> l + m < overflowBound"
    then have "Fin (l + m) = PInf" by (simp add: Fin_overflow)
    with s(1) have "Fin s = PInf" by simp
    with s(2) show False by (simp add: Fin_infinite)
  qed
  have "Fin (l + m) = Fin (clamp (l + m))"
    using fin l m maxValue_large maxValue_overflowBound by (intro Fin_clamp) linarith+
  with s(1) have "Fin (clamp (l + m)) = Fin s"
    by simp
  then have "clamp (l + m) = s"
    using s(2) by (simp add: Fin_simps)
  moreover have "s < maxValue"
    using sr r assms(6) by linarith
  ultimately have eq: "s = l + m"
    using l m by (simp add: clamp_def min_def max_def split: if_splits)
  have "a = \<lparr> left = Fin l, main = Fin m, right = Fin r \<rparr>"
    using l m r by (cases a) simp
  then show ?thesis
    using that l m r sr ts unfolding eq by blast
qed


lemma safePanelWidth_within:
  assumes "minLeft i \<le> left a" "minMain i \<le> main a" "minRight i \<le> right a"
    and "totalOf a \<le> Fin 100"
  shows "safePanelWidth i a = a"
proof -
  have nn: "Fin 0 \<le> left a" "Fin 0 \<le> main a" "Fin 0 \<le> right a"
    using assms(1-3) mins_nonneg[of i] above_floor_nonneg by blast+
  have b: "inRange 100" "(100::real) < maxValue"
    using maxValue_large by simp_all
  obtain l m r where a: "a = \<lparr> left = Fin l, main = Fin m, right = Fin r \<rparr>"
    and r: "0 \<le> l" "0 \<le> m" "0 \<le> r" "l + m + r \<le> 100" and t: "totalOf a = Fin (l + m + r)"
    and ir: "inRange l" "inRange m" "inRange r"
    using bounded_total[OF nn assms(4) b] by metis
  have s: "sanitizeValue (Fin l) = Fin l" "sanitizeValue (Fin m) = Fin m"
    "sanitizeValue (Fin r) = Fin r"
    using r ir by (simp_all add: sanitizeValue_def Fin_simps Fin_infinite)
  have mx: "Math_max f (Fin x) = Fin x" if "f \<le> Fin x" "inRange x" for f x
    using that by (cases f rule: number_cases) (simp_all add: Fin_simps Fin_infinite max_def)
  have c: "clamped i a = a"
    using assms(1-3) ir unfolding a clamped_def
    by (simp add: s mx)
  have "\<not> Fin 100 < Fin (l + m + r)"
    using r ir by (simp add: Fin_simps)
  then show ?thesis
    unfolding safePanelWidth_trimmed c t by simp
qed



lemmas conversion_defs =
  pixelsToPercentage_def percentageToPixels_def widthUnavailable_def
  minPanelWidthPercentage_def minMainPanelWidthPercentage_def
  MIN_PANEL_WIDTH_PX_def MIN_MAIN_PANEL_WIDTH_PX_def
  minLeft_def minMain_def minRight_def Fin_simps Fin_infinite

lemmas normalizer_defs =
  safePanelWidth_def clamped_def totalOf_def sanitizeValue_def Let_def percentages_def
  trimmedLeft_def trimmedRight_def

lemmas default_defs =
  defaultPanelSize_def DEFAULT_REGULAR_MAIN_WIDTH_PX_def

text \<open>The quotient \<open>0 / 0\<close>: with no container width and a stored main value of 150 the
  normalizer returns NaN for both outer panels.\<close>

lemma safePanelWidth_zero_outer_NaN:
  "safePanelWidth iZero (percentages 0 150 0) = \<lparr> left = NaN, main = Fin 150, right = NaN \<rparr>"
  by (simp add: iZero_def normalizer_defs conversion_defs)

text \<open>A stored main value of 100 at 1000 pixels: the outer panels are raised to their
  minimums and cannot be trimmed below them, so the result sums to 124.\<close>

lemma safePanelWidth_full_main:
  "safePanelWidth i1000 (percentages 0 100 0) = percentages 12 100 12"
  by (simp add: i1000_def normalizer_defs conversion_defs)

text \<open>Overflow: with two outer values of \<open>10^308\<close> the clamped sum is Infinity, the
  quotient of the trim is 0, and 0 times Infinity is NaN.\<close>

lemma safePanelWidth_overflow:
  "safePanelWidth i1000 \<lparr> left = Fin (10 ^ 308), main = Fin 50, right = Fin (10 ^ 308) \<rparr>
     = \<lparr> left = NaN, main = Fin 50, right = NaN \<rparr>"
proof -
  define h :: real where "h = 10 ^ 308"
  have r: "inRange h" "inRange (h + 50)"
    by (simp_all add: h_def inRange_def maxValue_def)
  have big: "Fin (2 * h + 50) = PInf" "Fin (2 * h) = PInf" "Fin (h + h) = PInf"
    by (rule Fin_overflow, simp add: h_def overflowBound_def)+
  have lt: "max 12 h = h" "0 \<le> h" "\<not> h < 0"
    by (simp_all add: h_def)
  have c: "clamped i1000 \<lparr> left = Fin h, main = Fin 50, right = Fin h \<rparr>
           = \<lparr> left = Fin h, main = Fin 50, right = Fin h \<rparr>"
    using r lt by (simp add: i1000_def clamped_def sanitizeValue_def conversion_defs
        Fin_simps Fin_infinite)
  have t: "totalOf \<lparr> left = Fin h, main = Fin 50, right = Fin h \<rparr> = PInf"
    using r by (simp add: totalOf_def Fin_simps big)
  have q: "Fin h / (Fin h + Fin h) = Fin 0"
    using r by (simp add: Fin_simps big Fin_infinite)
  have "safePanelWidth i1000 \<lparr> left = Fin h, main = Fin 50, right = Fin h \<rparr>
          = \<lparr> left = NaN, main = Fin 50, right = NaN \<rparr>"
    unfolding safePanelWidth_def Let_def c t
    by (simp add: q Fin_infinite minus_number_def)
  then show ?thesis
    unfolding h_def .
qed

section \<open>Facts about the gestures\<close>

text \<open>The drag candidate sum for a finite non-negative left candidate and a finite main
  value, in real arithmetic.\<close>

lemma drag_sum_exceeds:
  assumes a: "inRange a" "0 \<le> a" and m: "inRange m" and p: "inRange p" "0 \<le> p"
  shows "Fin 100 < Fin a + Fin m + Math_max (Fin p) (Fin 100 - Fin a - Fin m)
         \<longleftrightarrow> 100 < a + m + p"
proof -
  have M: "100 < maxValue" "maxValue < overflowBound" "maxValue + 100 < overflowBound"
    using maxValue_large maxValue_gap by simp_all
  have r100: "inRange (100 - a)"
    using a M by (simp add: inRange_def)
  have V: "Fin 100 - Fin a = Fin (100 - a)"
    using a by (simp add: Fin_simps)
  have W: "Fin (100 - a) - Fin m = Fin (100 - a - m)"
    using r100 m by (simp add: Fin_simps)
  have U: "Fin a + Fin m = Fin (a + m)"
    using a m by (simp add: Fin_simps)
  have h: "inRange 100" "(100::real) < maxValue"
    using M by simp_all
  show ?thesis
  proof (cases "100 < a + m + p")
    case True
    obtain w where R: "Math_max (Fin p) (Fin (100 - a - m)) = Fin w" "inRange w" "p \<le> w"
    proof (cases "100 - a - m" rule: Fin_trichotomy)
      case 1
      then show ?thesis using a m M by (simp add: inRange_def)
    next
      case 2
      then show ?thesis using that[of p] p by (simp add: Fin_infinite)
    next
      case 3
      then show ?thesis
        using that[of "max p (clamp (100 - a - m))"] p by (simp add: Fin_simps)
    qed
    show ?thesis
    proof (cases "a + m" rule: Fin_trichotomy)
      case 1
      then show ?thesis
        using True R h by (simp add: V W U Fin_infinite)
    next
      case 2
      then show ?thesis using a m M by (simp add: inRange_def)
    next
      case 3
      have "100 < clamp (a + m) + w"
        using True R(3) p a m M by (auto simp: clamp_def inRange_def min_def max_def)
      then have "Fin 100 < Fin (clamp (a + m) + w)"
        using h by (simp add: Fin_less_iff)
      then show ?thesis
        using True 3 R by (simp add: V W U Fin_simps)
    qed
  next
    case False
    then have s: "a + m \<le> 100" "p \<le> 100 - a - m"
      using p by simp_all
    have ram: "inRange (a + m)"
      using s a m M by (simp add: inRange_def)
    have "100 - a - m < overflowBound" "- overflowBound < 100 - a - m"
      using a m M p s by (simp_all add: inRange_def)
    then have c: "Fin (100 - a - m) = Fin (clamp (100 - a - m))"
      by (intro Fin_clamp)
    define w where "w = clamp (100 - a - m)"
    have w: "inRange w" "p \<le> w" "w \<le> 100 - a - m"
      using s p a m M by (auto simp: w_def clamp_def inRange_def min_def max_def)
    have R: "Math_max (Fin p) (Fin (100 - a - m)) = Fin w"
      unfolding c using w p by (simp add: w_def[symmetric] Fin_simps max_def)
    have "inRange (a + m + w)"
      using w a m p s M by (simp add: inRange_def)
    then have "\<not> Fin 100 < Fin (a + m + w)"
      using w s h by (simp add: Fin_simps)
    then show ?thesis
      using False ram w by (simp add: V W U R Fin_simps)
  qed
qed

text \<open>Raising the floor of the left candidate from 0 to the panel minimum never takes a
  drag candidate sum back to 100 or below.\<close>

lemma drag_sum_mono:
  assumes "Fin 0 \<le> P"
    and "Fin 100 < Math_max (Fin 0) x + m + Math_max P (Fin 100 - Math_max (Fin 0) x - m)"
  shows "Fin 100 < Math_max P x + m + Math_max P (Fin 100 - Math_max P x - m)"
proof (cases m rule: number_cases)
  case NaN
  with assms(2) show ?thesis by simp
next
  case NInf
  have "Math_max (Fin 0) x + NInf + Math_max P (Fin 100 - Math_max (Fin 0) x - NInf) = NaN"
    using assms(1)
    by (cases x rule: number_cases; cases P rule: nonneg_cases)
       (simp_all add: Fin_simps Fin_infinite minus_number_def)
  with assms(2) NInf show ?thesis by simp
next
  case PInf
  have "Math_max P x + PInf + Math_max P (Fin 100 - Math_max P x - PInf) = PInf \<or> x = NaN"
    using assms(1)
    by (cases x rule: number_cases; cases P rule: nonneg_cases)
       (simp_all add: Fin_simps Fin_infinite minus_number_def)
  moreover have "x \<noteq> NaN"
    using assms(2) by auto
  ultimately show ?thesis
    using PInf by (simp add: Fin_infinite)
next
  case (Fin mr)
  note m = this
  from assms(1) show ?thesis
  proof (cases rule: nonneg_cases)
    case 2
    have "x \<noteq> NaN" using assms(2) by auto
    then have "Math_max PInf x + Fin mr + Math_max PInf (Fin 100 - Math_max PInf x - Fin mr) = PInf"
      using m(2)
      by (cases x rule: number_cases) (simp_all add: Fin_simps Fin_infinite minus_number_def)
    then show ?thesis
      using 2 m by (simp add: Fin_infinite)
  next
    case (1 p)
    note P = this
    show ?thesis
    proof (cases x rule: number_cases)
      case NaN
      with assms(2) show ?thesis by simp
    next
      case PInf
      with assms(2) P show ?thesis by (simp add: Fin_infinite)
    next
      case NInf
      have "100 < 0 + mr + p"
        using assms(2) m P drag_sum_exceeds[of 0 mr p] unfolding NInf
        by (simp add: Fin_infinite)
      then have "100 < p + mr + p"
        using P by simp
      then show ?thesis
        using m P drag_sum_exceeds[of p mr p] unfolding NInf by (simp add: Fin_infinite)
    next
      case (Fin xr)
      have "100 < max 0 xr + mr + p"
        using assms(2) m P Fin drag_sum_exceeds[of "max 0 xr" mr p]
        by (simp add: Fin_simps)
      then have "100 < max p xr + mr + p"
        using P by (simp add: max_def split: if_splits)
      then show ?thesis
        using m P Fin drag_sum_exceeds[of "max p xr" mr p] by (simp add: Fin_simps)
    qed
  qed
qed

section \<open>Facts about persistence\<close>

lemma finiteField_Fin:
  assumes "finiteField j k"
  shows "\<exists>r. numberField j k = Fin r \<and> inRange r"
proof (cases "property j k")
  case None
  with assms show ?thesis by (simp add: finiteField_def)
next
  case (Some v)
  show ?thesis
  proof (cases v)
    case (JNum n)
    with Some assms show ?thesis
      by (cases n rule: number_cases) (auto simp: finiteField_def numberField_def Fin_infinite)
  qed (use Some assms in \<open>simp_all add: finiteField_def\<close>)
qed

lemma isValid_iff: "isValid j \<longleftrightarrow> \<not> structurallyInvalid j"
proof (cases "finiteField j ''left'' \<and> finiteField j ''main'' \<and> finiteField j ''right''")
  case True
  obtain l where l: "numberField j ''left'' = Fin l" "inRange l"
    using True finiteField_Fin by blast
  obtain m where m: "numberField j ''main'' = Fin m" "inRange m"
    using True finiteField_Fin by blast
  obtain r where r: "numberField j ''right'' = Fin r" "inRange r"
    using True finiteField_Fin by blast
  have z: "inRange 0" "inRange 200" by simp_all
  have s: "(\<not> Fin l + Fin m + Fin r \<le> Fin 200) = (Fin 200 < Fin l + Fin m + Fin r)"
    using l m r by (intro not_le_number finite_sum_not_NaN) simp_all
  show ?thesis
    unfolding isValid_def structurallyInvalid_def l m r using True l m r z s
    by (auto simp: Fin_simps)
next
  case False
  then show ?thesis
    unfolding isValid_def structurallyInvalid_def by blast
qed

lemma objectOf_fields:
  "finiteField (objectOf a) ''left'' = Number_isFinite (left a)"
  "finiteField (objectOf a) ''main'' = Number_isFinite (main a)"
  "finiteField (objectOf a) ''right'' = Number_isFinite (right a)"
  "numberField (objectOf a) ''left'' = left a"
  "numberField (objectOf a) ''main'' = main a"
  "numberField (objectOf a) ''right'' = right a"
  by (simp_all add: objectOf_def finiteField_def numberField_def)

lemma panelsOf_objectOf: "panelsOf (objectOf a) = a"
  by (simp add: panelsOf_def objectOf_fields)

lemma truthy_objectOf: "truthy (objectOf a)"
  by (simp add: objectOf_def)

text \<open>The default allocation: either three finite values that sum to 100, or, when the
  converted main width overflows, an infinite main value beside a right value of
  -Infinity.\<close>

lemma default_from_main:
  assumes "Fin 0 \<le> M"
  shows "(\<exists>m. M = Fin m \<and> inRange m \<and> 0 \<le> m \<and> Fin 100 - M = Fin (100 - m)
              \<and> (Fin 100 - M) / Fin 2 = Fin ((100 - m) / 2) \<and> inRange (100 - m)
              \<and> inRange ((100 - m) / 2))
         \<or> (M = PInf \<and> Fin 100 - M = NInf \<and> (Fin 100 - M) / Fin 2 = NInf)"
  using assms
proof (cases rule: nonneg_cases)
  case (1 m)
  have a: "inRange (100 - m)" using 1 by simp
  have b: "inRange ((100 - m) / 2)"
    using a by (simp add: inRange_def)
  have e1: "Fin 100 - M = Fin (100 - m)"
    using 1 by (simp add: Fin_simps)
  have e2: "(Fin 100 - M) / Fin 2 = Fin ((100 - m) / 2)"
    unfolding e1 using a by (simp add: Fin_simps)
  show ?thesis
    using 1 a b e1 e2 by blast
next
  case 2
  have "NInf / Fin 2 = NInf" by (simp add: Fin_infinite)
  with 2 show ?thesis by (intro disjI2) (simp add: Fin_infinite)
qed

lemma isValid_three:
  assumes "inRange l" "inRange m" "inRange r" "l + m + r = 100" "0 \<le> m"
  shows "isValid (objectOf \<lparr> left = Fin l, main = Fin m, right = Fin r \<rparr>)
         \<longleftrightarrow> 0 \<le> l \<and> 0 \<le> r"
proof (cases "0 \<le> l \<and> 0 \<le> r")
  case True
  then have "inRange (l + m)" using assms by (intro inRange_small) linarith+
  then show ?thesis
    using True assms by (simp add: isValid_def objectOf_fields Fin_simps Fin_infinite)
next
  case False
  then show ?thesis
    using assms by (auto simp: isValid_def objectOf_fields Fin_simps Fin_infinite)
qed

lemma isValid_default:
  "isValid (objectOf (defaultPanelSize i)) \<longleftrightarrow>
     Fin 0 \<le> left (defaultPanelSize i) \<and> Fin 0 \<le> main (defaultPanelSize i)
     \<and> Fin 0 \<le> right (defaultPanelSize i)"
proof (cases "widthUnavailable i")
  case True
  have v: "isValid (objectOf \<lparr> left = Fin l, main = Fin m, right = Fin r \<rparr>)"
    if "0 \<le> l" "0 \<le> m" "0 \<le> r" "l + m + r = 100" for l m r
    using that isValid_three[of l m r] by simp
  show ?thesis
    using True unfolding defaultPanelSize_def
    by (cases "paneType i") (simp_all add: v Fin_simps)
next
  case False
  have px: "Fin 0 \<le> pixelsToPercentage i DEFAULT_INPUTLESS_MAIN_WIDTH_PX"
    "Fin 0 \<le> pixelsToPercentage i DEFAULT_WIDE_MAIN_WIDTH_PX"
    "Fin 0 \<le> pixelsToPercentage i DEFAULT_REGULAR_MAIN_WIDTH_PX"
    unfolding DEFAULT_INPUTLESS_MAIN_WIDTH_PX_def DEFAULT_WIDE_MAIN_WIDTH_PX_def
      DEFAULT_REGULAR_MAIN_WIDTH_PX_def
    by (rule pixelsToPercentage_nonneg; simp)+
  have inl: "isValid (objectOf \<lparr> left = Fin 0, main = M, right = Fin 100 - M \<rparr>)
        \<longleftrightarrow> Fin 0 \<le> Fin 0 \<and> Fin 0 \<le> M \<and> Fin 0 \<le> Fin 100 - M" if "Fin 0 \<le> M" for M
    using default_from_main[OF that]
  proof (elim disjE exE conjE)
    fix m assume h: "M = Fin m" "inRange m" "0 \<le> m" "Fin 100 - M = Fin (100 - m)"
      "inRange (100 - m)"
    show ?thesis
      unfolding h(4) unfolding h(1) using isValid_three[of 0 m "100 - m"] h
      by (simp add: Fin_simps)
  next
    assume "M = PInf" "Fin 100 - M = NInf"
    then show ?thesis
      by (simp add: isValid_def objectOf_fields)
  qed
  have two: "isValid (objectOf \<lparr> left = (Fin 100 - M) / Fin 2, main = M,
                                  right = (Fin 100 - M) / Fin 2 \<rparr>)
        \<longleftrightarrow> Fin 0 \<le> (Fin 100 - M) / Fin 2 \<and> Fin 0 \<le> M \<and> Fin 0 \<le> (Fin 100 - M) / Fin 2"
    if "Fin 0 \<le> M" for M
    using default_from_main[OF that]
  proof (elim disjE exE conjE)
    fix m assume h: "M = Fin m" "inRange m" "0 \<le> m"
      "(Fin 100 - M) / Fin 2 = Fin ((100 - m) / 2)" "inRange ((100 - m) / 2)"
    show ?thesis
      unfolding h(4) unfolding h(1)
      using isValid_three[of "(100 - m) / 2" m "(100 - m) / 2"] h
      by (simp add: Fin_simps)
  next
    assume "M = PInf" "(Fin 100 - M) / Fin 2 = NInf"
    then show ?thesis
      by (simp add: isValid_def objectOf_fields)
  qed
  show ?thesis
    using False unfolding defaultPanelSize_def Let_def
    by (cases "paneType i") (simp_all add: inl[OF px(1)] two[OF px(2)] two[OF px(3)])
qed

lemma defaultPanelSize_unavailable:
  assumes "widthUnavailable i"
  shows "Fin 0 \<le> left (defaultPanelSize i) \<and> Fin 0 \<le> main (defaultPanelSize i)
     \<and> Fin 0 \<le> right (defaultPanelSize i)"
  using assms unfolding defaultPanelSize_def by (cases "paneType i") (simp_all add: Fin_simps)


lemma toUpperCase_regular: "toUpperCase ''regular'' = ''REGULAR''"
  by code_simp

lemma key_regular [simp]:
  "paneType i = Regular \<Longrightarrow> localStorageKey testJSON i = ''N8N_NDV_PANEL_WIDTH_REGULAR''"
  by (simp add: Fin_simps Fin_infinite testJSON_def localStorageKey_def paneTypeTag_def toUpperCase_regular)

section \<open>The claims\<close>




text \<open>
  C2 (defect of the code). Normalizing twice is not normalizing once. At 1000 pixels with
  an input panel the candidate (12, 50, 80) leaves room for a valid allocation: the
  minimums and the main value add up to 74. The proportional trim takes the left value
  under its minimum, the re-clamp puts it back at 12, and the part of the excess that
  was meant to come off the left panel is never taken off the right one: the result
  (12, 50, 1000/23) sums to 2426/23, about 105.48. A second pass trims the right panel
  again, to 12500/319, more than 4 percentage points away.
\<close>

theorem safePanelWidth_twice_not_idempotent:
  "safePanelWidth i1000 (percentages 12 50 80) = percentages 12 50 (1000 / 23)
   \<and> safePanelWidth i1000 (safePanelWidth i1000 (percentages 12 50 80))
       = percentages 12 50 (12500 / 319)
   \<and> Fin 4 < right (safePanelWidth i1000 (percentages 12 50 80))
              - right (safePanelWidth i1000 (safePanelWidth i1000 (percentages 12 50 80)))
   \<and> totalOf (safePanelWidth i1000 (percentages 12 50 80)) = Fin (2426 / 23)"
proof -
  have one: "safePanelWidth i1000 (percentages 12 50 80) = percentages 12 50 (1000 / 23)"
    by (simp add: i1000_def normalizer_defs conversion_defs)
  have two: "safePanelWidth i1000 (percentages 12 50 (1000 / 23)) = percentages 12 50 (12500 / 319)"
    by (simp add: i1000_def normalizer_defs conversion_defs)
  show ?thesis
    unfolding one two by (simp add: percentages_def totalOf_def Fin_simps)
qed

text \<open>
  C3 (corrected). The floor that \<^verbatim>\<open>onResize\<close> tests for the left panel is the panel
  minimum whether or not an input panel is present. Without an input panel, at 1000
  pixels, a resize of the main panel from 50 to 52 with left = 5 is rejected, where the
  claim's floor of 0 would commit (3, 52, 45).
\<close>

theorem onResize_left_floor_counterexample:
  "onResize iNoInput resizeLeft520 (stateOf (percentages 5 50 45)) = stateOf (percentages 5 50 45)
   \<and> onResizeLeftClaim (minLeft iNoInput) iNoInput resizeLeft520 (stateOf (percentages 5 50 45))
       = stateOf (percentages 3 52 45)
   \<and> onResize iNoInput resizeLeft520 (stateOf (percentages 5 50 45))
       \<noteq> onResizeLeftClaim (minLeft iNoInput) iNoInput resizeLeft520 (stateOf (percentages 5 50 45))"
  by (simp add: Fin_simps Fin_infinite onResize_def onResizeLeftClaim_def iNoInput_def resizeLeft520_def stateOf_def
      normalizer_defs conversion_defs)

text \<open>
  C3 as amended. For a resize event of direction left, with the left floor equal to the
  minimum panel width as a percentage (whether or not an input panel is present):
  \<^verbatim>\<open>onResize\<close> leaves the state unchanged when the would-be left value is below the
  floor, and otherwise commits the normalized candidate. With an input panel this is the
  claim as it was stated.
\<close>

theorem onResize_left:
  assumes "direction event = ''left''"
  shows "onResize i event s = onResizeLeftClaim (minPanelWidthPercentage i) i event s
       \<and> (hasInputPanel i \<longrightarrow> onResize i event s = onResizeLeftClaim (minLeft i) i event s)"
  using assms by (simp add: onResize_def onResizeLeftClaim_def Let_def minLeft_def)

theorem onResize_left_witness:
  "direction resizeLeft500 = ''left''
   \<and> onResize i1000 resizeLeft500 (stateOf (percentages 29 42 29)) = stateOf (percentages 21 50 29)
   \<and> onResize i1000 resizeLeft520 (stateOf (percentages 13 50 37)) = stateOf (percentages 13 50 37)"
proof -
  have h: "direction resizeLeft500 = ''left''" "direction resizeLeft520 = ''left''"
    by (simp_all add: Fin_simps Fin_infinite resizeLeft500_def resizeLeft520_def)
  have a: "onResizeLeftClaim (minPanelWidthPercentage i1000) i1000 resizeLeft500
             (stateOf (percentages 29 42 29)) = stateOf (percentages 21 50 29)"
    by (simp add: Fin_simps Fin_infinite onResizeLeftClaim_def i1000_def resizeLeft500_def stateOf_def
        normalizer_defs conversion_defs)
  have b: "onResizeLeftClaim (minPanelWidthPercentage i1000) i1000 resizeLeft520
             (stateOf (percentages 13 50 37)) = stateOf (percentages 13 50 37)"
    by (simp add: Fin_simps Fin_infinite onResizeLeftClaim_def i1000_def resizeLeft520_def stateOf_def
        normalizer_defs conversion_defs)
  show ?thesis
    using h(1) a b onResize_left [OF h(1), of i1000 "stateOf (percentages 29 42 29)"]
      onResize_left [OF h(2), of i1000 "stateOf (percentages 13 50 37)"]
    by (simp add: Fin_simps Fin_infinite)
qed

text \<open>
  C4 (confirmed). A drag never changes the main value, whatever the position and the
  current allocation; it does not touch the store either.
\<close>

theorem onDrag_main_unchanged:
  "main (panelWidthPercentage (onDrag i position s)) = main (panelWidthPercentage s)
   \<and> localStorage (onDrag i position s) = localStorage s"
  by (simp add: onDrag_def Let_def)

theorem onDrag_main_unchanged_witness:
  "main (panelWidthPercentage
      (onDrag i1000 (Fin 300, Fin 0) (stateOf (percentages 29 42 29))))
   = Fin 42"
  using onDrag_main_unchanged
    [of i1000 "(Fin 300, Fin 0)" "stateOf (percentages 29 42 29)"]
  by (simp add: Fin_simps Fin_infinite percentages_def stateOf_def)

text \<open>
  C5 (confirmed). With the left candidate and the right candidate computed as the
  specification says, a drag whose candidate sum exceeds 100 leaves the state unchanged.
  This holds for both readings of the left floor: the minimum panel width that the code
  uses, and the floor that is 0 when there is no input panel.
\<close>

theorem onDrag_overflow_rejected:
  assumes "minLeftPercentage = minPanelWidthPercentage i \<or> minLeftPercentage = minLeft i"
    and "Fin 100 < dragLeft minLeftPercentage i position s + main (panelWidthPercentage s)
                   + dragRight minLeftPercentage i position s"
  shows "onDrag i position s = s"
proof -
  have "Fin 100 < dragLeft (minPanelWidthPercentage i) i position s + main (panelWidthPercentage s)
                   + dragRight (minPanelWidthPercentage i) i position s"
  proof (cases "minLeftPercentage = minPanelWidthPercentage i")
    case True
    with assms(2) show ?thesis by simp
  next
    case False
    with assms(1) have "minLeftPercentage = Fin 0"
      by (auto simp: minLeft_def split: if_splits)
    with assms(2) show ?thesis
      unfolding dragLeft_def dragRight_def minRight_def
      by (intro drag_sum_mono[OF minPanel_nonneg]) simp
  qed
  then show ?thesis
    by (simp add: onDrag_def dragLeft_def dragRight_def minRight_def Let_def)
qed

theorem onDrag_overflow_rejected_witness:
  "minLeft iNoInput = Fin 0 \<and> minPanelWidthPercentage iNoInput = Fin 12
   \<and> Fin 100 < dragLeft (minLeft iNoInput) iNoInput (Fin 900, Fin 0) (stateOf (percentages 0 40 60))
               + main (panelWidthPercentage (stateOf (percentages 0 40 60)))
               + dragRight (minLeft iNoInput) iNoInput (Fin 900, Fin 0) (stateOf (percentages 0 40 60))
   \<and> onDrag iNoInput (Fin 900, Fin 0) (stateOf (percentages 0 40 60)) = stateOf (percentages 0 40 60)"
proof -
  have m: "minLeft iNoInput = Fin 0" "minPanelWidthPercentage iNoInput = Fin 12"
    by (simp_all add: Fin_simps Fin_infinite iNoInput_def conversion_defs)
  have d: "minLeft iNoInput = minPanelWidthPercentage iNoInput \<or> minLeft iNoInput = minLeft iNoInput"
    by (simp add: Fin_simps Fin_infinite)
  have h: "Fin 100 < dragLeft (minLeft iNoInput) iNoInput (Fin 900, Fin 0) (stateOf (percentages 0 40 60))
               + main (panelWidthPercentage (stateOf (percentages 0 40 60)))
               + dragRight (minLeft iNoInput) iNoInput (Fin 900, Fin 0) (stateOf (percentages 0 40 60))"
    by (simp add: Fin_simps Fin_infinite dragLeft_def dragRight_def iNoInput_def stateOf_def normalizer_defs
        conversion_defs)
  show ?thesis
    using m h onDrag_overflow_rejected [OF d h] by (simp add: Fin_simps Fin_infinite)
qed




text \<open>
  C7 (confirmed). When the stored text parses to a structurally invalid value (a field
  that is not a finite number, a negative field, or a sum above 200), loading removes
  the key and sets the allocation to the normalized default of the variant.
\<close>

theorem loadPanelSize_invalid_stored:
  assumes "JSON_parse x [] = None"
    and "localStorage s (localStorageKey x i) = Some stored"
    and "JSON_parse x stored = Some j"
    and "structurallyInvalid j"
  shows "localStorage (loadPanelSize x i s) (localStorageKey x i) = None
       \<and> panelWidthPercentage (loadPanelSize x i s) = safePanelWidth i (defaultPanelSize i)"
proof -
  have ne: "stored \<noteq> []"
    using assms(1,3) by auto
  have "\<not> isValid (jsonParse x stored (objectOf (defaultPanelSize i)))"
    using assms(3,4) by (simp add: jsonParse_def isValid_iff)
  then show ?thesis
    using ne assms(2) by (simp add: loadPanelSize_def Let_def)
qed

theorem loadPanelSize_invalid_stored_witness:
  \<open>JSON_parse testJSON [] = None
   \<and> localStorage (storing ''{"left":-10,"main":40,"right":30}'') (localStorageKey testJSON i1000)
       = Some ''{"left":-10,"main":40,"right":30}''
   \<and> JSON_parse testJSON ''{"left":-10,"main":40,"right":30}'' = Some (objectOf (percentages (- 10) 40 30))
   \<and> structurallyInvalid (objectOf (percentages (- 10) 40 30))
   \<and> localStorage (loadPanelSize testJSON i1000 (storing ''{"left":-10,"main":40,"right":30}''))
        (localStorageKey testJSON i1000) = None
   \<and> panelWidthPercentage
        (loadPanelSize testJSON i1000 (storing ''{"left":-10,"main":40,"right":30}''))
       = percentages 29 42 29\<close>
proof -
  have k: "localStorageKey testJSON i1000 = ''N8N_NDV_PANEL_WIDTH_REGULAR''"
    by (simp add: Fin_simps Fin_infinite i1000_def)
  have h1: "JSON_parse testJSON [] = None"
    by (simp add: Fin_simps Fin_infinite testJSON_def storedTexts_def)
  have h2: \<open>localStorage (storing ''{"left":-10,"main":40,"right":30}'') (localStorageKey testJSON i1000)
       = Some ''{"left":-10,"main":40,"right":30}''\<close>
    unfolding k by (simp add: Fin_simps Fin_infinite storing_def)
  have h3: \<open>JSON_parse testJSON ''{"left":-10,"main":40,"right":30}''
       = Some (objectOf (percentages (- 10) 40 30))\<close>
    by (simp add: Fin_simps Fin_infinite testJSON_def storedTexts_def)
  have h4: "structurallyInvalid (objectOf (percentages (- 10) 40 30))"
    by (simp add: Fin_simps Fin_infinite structurallyInvalid_def objectOf_fields percentages_def)
  have d: "safePanelWidth i1000 (defaultPanelSize i1000) = percentages 29 42 29"
    by (simp add: Fin_simps Fin_infinite i1000_def defaultPanelSize_def DEFAULT_REGULAR_MAIN_WIDTH_PX_def
        normalizer_defs conversion_defs)
  note r = loadPanelSize_invalid_stored [OF h1 h2 h3 h4]
  show ?thesis
    using h1 h2 h3 h4 r unfolding d by (simp add: Fin_simps Fin_infinite)
qed

text \<open>
  C8 (corrected). The fallback of a failed parse is the default allocation, and it goes
  through the same validity test as a parsed value. In a container of 300 pixels the
  regular default is (-20, 140, -20), the test fails, and the unparseable key is removed.
\<close>

theorem loadPanelSize_unparseable_counterexample:
  "JSON_parse testJSON ''not json'' = None
   \<and> localStorage (storing ''not json'') (localStorageKey testJSON i300) = Some ''not json''
   \<and> defaultPanelSize i300 = percentages (- 20) 140 (- 20)
   \<and> localStorage (loadPanelSize testJSON i300 (storing ''not json''))
        (localStorageKey testJSON i300) = None"
proof -
  have k: "localStorageKey testJSON i300 = ''N8N_NDV_PANEL_WIDTH_REGULAR''"
    by (simp add: Fin_simps Fin_infinite i300_def)
  have pa: "JSON_parse testJSON ''not json'' = None"
    by (simp add: Fin_simps Fin_infinite testJSON_def storedTexts_def)
  have d: "defaultPanelSize i300 = percentages (- 20) 140 (- 20)"
    by (simp add: Fin_simps Fin_infinite i300_def defaultPanelSize_def DEFAULT_REGULAR_MAIN_WIDTH_PX_def
        normalizer_defs conversion_defs)
  have inv: "\<not> isValid (objectOf (percentages (- 20) 140 (- 20)))"
    by (simp add: Fin_simps Fin_infinite isValid_def objectOf_fields percentages_def)
  show ?thesis
    using inv pa d k by (simp add: Fin_simps Fin_infinite loadPanelSize_def Let_def jsonParse_def storing_def)
qed

text \<open>
  C8 as amended. When the stored text does not parse, loading sets the allocation to the
  normalized default. The stored key is left in place exactly when the text is empty or
  the three values of the default allocation are non-negative, which is the case in
  particular whenever the container width is zero or unknown; otherwise it is removed.
\<close>

theorem loadPanelSize_unparseable:
  assumes "localStorage s (localStorageKey x i) = Some stored"
    and "JSON_parse x stored = None"
  shows "panelWidthPercentage (loadPanelSize x i s) = safePanelWidth i (defaultPanelSize i)
       \<and> localStorage (loadPanelSize x i s) (localStorageKey x i)
           = (if stored = [] \<or> (Fin 0 \<le> left (defaultPanelSize i)
                                  \<and> Fin 0 \<le> main (defaultPanelSize i)
                                  \<and> Fin 0 \<le> right (defaultPanelSize i))
              then Some stored else None)
       \<and> (if widthUnavailable i
           then localStorage (loadPanelSize x i s) (localStorageKey x i) = Some stored
           else True)"
proof -
  have j: "jsonParse x stored (objectOf (defaultPanelSize i)) = objectOf (defaultPanelSize i)"
    using assms(2) by (simp add: jsonParse_def)
  have a: "panelWidthPercentage (loadPanelSize x i s) = safePanelWidth i (defaultPanelSize i)"
    using assms(1) by (simp add: loadPanelSize_def Let_def j panelsOf_objectOf)
  have b: "localStorage (loadPanelSize x i s) (localStorageKey x i)
           = (if stored = [] \<or> (Fin 0 \<le> left (defaultPanelSize i)
                                  \<and> Fin 0 \<le> main (defaultPanelSize i)
                                  \<and> Fin 0 \<le> right (defaultPanelSize i))
              then Some stored else None)"
    using assms(1)
    by (simp add: loadPanelSize_def Let_def j truthy_objectOf isValid_default)
  show ?thesis
    using a b defaultPanelSize_unavailable[of i] by simp
qed

theorem loadPanelSize_unparseable_witness:
  "localStorage (storing ''not json'') (localStorageKey testJSON i1000) = Some ''not json''
   \<and> JSON_parse testJSON ''not json'' = None
   \<and> panelWidthPercentage (loadPanelSize testJSON i1000 (storing ''not json'')) = percentages 29 42 29
   \<and> localStorage (loadPanelSize testJSON i1000 (storing ''not json''))
        (localStorageKey testJSON i1000) = Some ''not json''"
proof -
  have k: "localStorageKey testJSON i1000 = ''N8N_NDV_PANEL_WIDTH_REGULAR''"
    by (simp add: Fin_simps Fin_infinite i1000_def)
  have h1: "localStorage (storing ''not json'') (localStorageKey testJSON i1000) = Some ''not json''"
    unfolding k by (simp add: Fin_simps Fin_infinite storing_def)
  have h2: "JSON_parse testJSON ''not json'' = None"
    by (simp add: Fin_simps Fin_infinite testJSON_def storedTexts_def)
  have d: "defaultPanelSize i1000 = percentages 29 42 29"
    by (simp add: Fin_simps Fin_infinite i1000_def defaultPanelSize_def DEFAULT_REGULAR_MAIN_WIDTH_PX_def
        normalizer_defs conversion_defs)
  have s: "safePanelWidth i1000 (percentages 29 42 29) = percentages 29 42 29"
    by (simp add: Fin_simps Fin_infinite i1000_def normalizer_defs conversion_defs)
  note r = loadPanelSize_unparseable [OF h1 h2]
  show ?thesis
    using h1 h2 r unfolding d s by (simp add: Fin_simps Fin_infinite percentages_def)
qed

text \<open>
  C9 (confirmed). The container width is the measured width of a DOM element, so it is
  never +Infinity. For every such width both converters return 0 when the width is not
  a positive finite number (NaN, zero, negative or -Infinity) and the quotient formula
  otherwise. They are total functions, and where they divide the width is not zero.
\<close>

theorem unit_conversion_guard:
  assumes "containerWidth i \<noteq> PInf"
  shows "percentageToPixels i percentage =
           (if positiveFinite (containerWidth i) then (percentage / Fin 100) * containerWidth i
            else Fin 0)
       \<and> pixelsToPercentage i pixels =
           (if positiveFinite (containerWidth i) then (pixels / containerWidth i) * Fin 100
            else Fin 0)
       \<and> (if positiveFinite (containerWidth i) then containerWidth i \<noteq> Fin 0
           else widthUnavailable i)"
  using assms
  by (cases "containerWidth i" rule: number_cases)
     (auto simp: percentageToPixels_def pixelsToPercentage_def widthUnavailable_def
        positiveFinite_def Fin_simps Fin_infinite)

theorem unit_conversion_guard_witness:
  "containerWidth i1000 \<noteq> PInf \<and> containerWidth iZero \<noteq> PInf
   \<and> percentageToPixels i1000 (Fin 29) = Fin 290
   \<and> pixelsToPercentage i1000 (Fin 120) = Fin 12
   \<and> percentageToPixels iZero (Fin 29) = Fin 0
   \<and> pixelsToPercentage iZero (Fin 120) = Fin 0"
proof -
  have h: "containerWidth i1000 \<noteq> PInf" "containerWidth iZero \<noteq> PInf"
    by (simp_all add: Fin_simps Fin_infinite i1000_def iZero_def)
  have p: "positiveFinite (containerWidth i1000)" "\<not> positiveFinite (containerWidth iZero)"
    by (simp_all add: Fin_simps Fin_infinite positiveFinite_def i1000_def iZero_def)
  have v: "(Fin 29 / Fin 100) * containerWidth i1000 = Fin 290"
    "(Fin 120 / containerWidth i1000) * Fin 100 = Fin 12"
    by (simp_all add: Fin_simps Fin_infinite i1000_def)
  show ?thesis
    using h p v unit_conversion_guard [OF h(1), of "Fin 29" "Fin 120"]
      unit_conversion_guard [OF h(2), of "Fin 29" "Fin 120"]
    by (simp add: Fin_simps Fin_infinite)
qed

text \<open>
  C10 (confirmed). With the container width zero or unknown every conversion is 0, and a
  drag from an allocation whose main value is finite and between 0 and 100 is not
  rejected: it commits left = 0 and right = 100 - main, wherever the pointer is.
\<close>

theorem onDrag_zero_width:
  assumes "widthUnavailable i"
    and "Number_isFinite (main (panelWidthPercentage s))"
    and "Fin 0 \<le> main (panelWidthPercentage s)"
    and "main (panelWidthPercentage s) \<le> Fin 100"
  shows "onDrag i position s =
           s \<lparr> panelWidthPercentage :=
                 \<lparr> left = Fin 0, main = main (panelWidthPercentage s),
                   right = Fin 100 - main (panelWidthPercentage s) \<rparr> \<rparr>"
proof -
  obtain m where m: "main (panelWidthPercentage s) = Fin m" "0 \<le> m" "m \<le> 100" "inRange m"
    using assms(2-4)
    by (cases "main (panelWidthPercentage s)" rule: number_cases)
       (auto simp: Fin_simps Fin_infinite)
  have p: "pixelsToPercentage i q = Fin 0" for q
    using assms(1) by (simp add: pixelsToPercentage_def)
  have mp: "minPanelWidthPercentage i = Fin 0"
    by (simp add: minPanelWidthPercentage_def p)
  have mins: "minLeft i = Fin 0" "minMain i = Fin 0" "minRight i = Fin 0"
    by (simp_all add: minLeft_def minMain_def minRight_def mp minMainPanelWidthPercentage_def p)
  let ?a = "\<lparr> left = Fin 0, main = Fin m, right = Fin (100 - m) \<rparr>"
  have safe: "safePanelWidth i ?a = ?a"
    by (rule safePanelWidth_within) (use m in \<open>simp_all add: mins totalOf_def Fin_simps\<close>)
  have nl: "Math_max (minPanelWidthPercentage i)
              (pixelsToPercentage i (fst position) - Fin m / Fin 2) = Fin 0"
    using m by (simp add: mp p Fin_simps max_def)
  have nr: "Math_max (minPanelWidthPercentage i) (Fin 100 - Fin 0 - Fin m) = Fin (100 - m)"
    using m by (simp add: mp Fin_simps max_def)
  have tot: "\<not> Fin 100 < Fin 0 + Fin m + Fin (100 - m)"
    using m by (simp add: Fin_simps)
  have upd: "(panelWidthPercentage s) \<lparr> left := Fin 0, right := Fin (100 - m) \<rparr> = ?a"
    using m(1) by (cases "panelWidthPercentage s") simp
  have sub: "Fin 100 - Fin m = Fin (100 - m)"
    using m by (simp add: Fin_simps)
  show ?thesis
    unfolding onDrag_def Let_def m nl nr sub using tot safe upd by simp
qed

theorem onDrag_zero_width_witness:
  "widthUnavailable iZero
   \<and> onDrag iZero (Fin 300, Fin 0) (stateOf (percentages 32.5 35 32.5))
     = stateOf (percentages 0 35 65)"
proof -
  let ?s = "stateOf (percentages 32.5 35 32.5)"
  have h: "widthUnavailable iZero" "Number_isFinite (main (panelWidthPercentage ?s))"
    "Fin 0 \<le> main (panelWidthPercentage ?s)" "main (panelWidthPercentage ?s) \<le> Fin 100"
    by (simp_all add: Fin_simps Fin_infinite iZero_def widthUnavailable_def percentages_def stateOf_def)
  show ?thesis
    using h(1) onDrag_zero_width [OF h, of "(Fin 300, Fin 0)"]
    by (simp add: Fin_simps Fin_infinite percentages_def stateOf_def)
qed

end
